theory Spec2Isabelle
  imports Main "HOL-Library.Multiset" "HOL-Library.Char_ord" "HOL-Library.List_Lexorder"
begin

section \<open>The tag page plugin: settings, vault and the two commands\<close>

text \<open>
  The plugin of \<^verbatim>\<open>src/main.ts\<close> creates and refreshes a ``tag page'': a note that lists
  every note of the vault referring to a tag. \<^verbatim>\<open>main.ts\<close> holds the settings, the command
  \<^verbatim>\<open>createTagPage\<close> and the refresh callback \<^verbatim>\<open>refreshTagPageContent\<close>; the scan
  (\<^verbatim>\<open>utils/tagSearch\<close>) and the page text (\<^verbatim>\<open>utils/pageContent\<close>) are imported from
  files that are not part of the sources at hand. The two commands are therefore
  embedded with the scan and the generator as parameters; the Indexer and the Generator
  themselves are embedded, further down, from the specification's description.
\<close>

subsection \<open>JavaScript strings\<close>

text \<open>\<^verbatim>\<open>s.startsWith(p)\<close> and \<^verbatim>\<open>s.includes(p)\<close> of JavaScript, on lists of characters.\<close>

definition startsWith :: "string \<Rightarrow> string \<Rightarrow> bool" where
  "startsWith s p = (take (length p) s = p)"

fun includes_str :: "string \<Rightarrow> string \<Rightarrow> bool" where
  "includes_str [] p = (p = [])"
| "includes_str (c # cs) p = (startsWith (c # cs) p \<or> includes_str cs p)"

subsection \<open>Settings\<close>

text \<open>
  \<^verbatim>\<open>interface PluginSettings\<close> (main.ts, lines 16 to 22); the two fields declared with
  \<^verbatim>\<open>?\<close> may be absent.
\<close>

record PluginSettings =
  mySetting :: string
  tagPageDir :: string
  frontmatterQueryProperty :: string
  bulletedSubItems :: "bool option"
  includeLines :: "bool option"

text \<open>\<^verbatim>\<open>DEFAULT_SETTINGS\<close> (main.ts, lines 24 to 30).\<close>

definition DEFAULT_SETTINGS :: PluginSettings where
  "DEFAULT_SETTINGS =
     \<lparr>mySetting = ''default'',
      tagPageDir = ''Tags'',
      frontmatterQueryProperty = ''tage-page-query'',
      bulletedSubItems = Some True,
      includeLines = Some True\<rparr>"

text \<open>
  At run time the settings are a plain JavaScript object, and \<^verbatim>\<open>loadSettings\<close> builds
  it with \<^verbatim>\<open>Object.assign\<close> from the defaults and whatever \<^verbatim>\<open>loadData()\<close> returns: the
  stored JSON object, or \<^verbatim>\<open>null\<close> when nothing was stored. An object is a map from property
  names to values; \<^verbatim>\<open>Object.assign\<close> copies the own properties of each source over
  the target, later sources winning, and skips a \<^verbatim>\<open>null\<close> source.
\<close>

datatype jsvalue = JString string | JBoolean bool | JNull

type_synonym jsobject = "string \<rightharpoonup> jsvalue"

text \<open>The object a settings literal denotes: an absent optional field is no property.\<close>

definition settingsObject :: "PluginSettings \<Rightarrow> jsobject" where
  "settingsObject s =
     [''mySetting'' \<mapsto> JString (mySetting s),
      ''tagPageDir'' \<mapsto> JString (tagPageDir s),
      ''frontmatterQueryProperty'' \<mapsto> JString (frontmatterQueryProperty s)]
     ++ (case bulletedSubItems s of
           None \<Rightarrow> Map.empty | Some b \<Rightarrow> [''bulletedSubItems'' \<mapsto> JBoolean b])
     ++ (case includeLines s of
           None \<Rightarrow> Map.empty | Some b \<Rightarrow> [''includeLines'' \<mapsto> JBoolean b])"

definition Object_assign :: "jsobject \<Rightarrow> jsobject option list \<Rightarrow> jsobject" where
  "Object_assign target sources =
     foldl (\<lambda>t s. case s of None \<Rightarrow> t | Some src \<Rightarrow> t ++ src) target sources"

text \<open>\<^verbatim>\<open>loadSettings\<close> (main.ts, lines 61 to 67); the argument is what \<^verbatim>\<open>loadData()\<close> gave.\<close>

definition loadSettings :: "jsobject option \<Rightarrow> jsobject" where
  "loadSettings loadData =
     Object_assign Map.empty [Some (settingsObject DEFAULT_SETTINGS), loadData]"

subsection \<open>The vault and the workspace\<close>

text \<open>
  What the two commands touch of the host application: the files of the vault (path to
  text), its folders, and, so that every call into the host is visible, the list of the
  calls made so far. The host's operations are embedded as its interface documents
  them; they are not code of the plugin.

  A rejected promise or a thrown exception is a value of \<open>error\<close>:
  \<^verbatim>\<open>InvalidTagInput\<close> is the error of section 7 of the specification,
  \<^verbatim>\<open>FileAlreadyExists\<close> the host's refusal to create over an existing path,
  \<^verbatim>\<open>NoSuchFolder\<close> its refusal to create a file in a folder that does not exist, and
  \<^verbatim>\<open>Rejected\<close> any other rejection, with its message.
\<close>

datatype error =
    InvalidTagInput
  | FileAlreadyExists string
  | NoSuchFolder string
  | Rejected string

datatype TAbstractFile = TFile string | TFolder string

fun pathOf :: "TAbstractFile \<Rightarrow> string" where
  "pathOf (TFile p) = p"
| "pathOf (TFolder p) = p"

datatype event =
    FetchTagData string
  | GenerateTagPageContent string
  | CreateFolder string
  | Create string string
  | OpenFile string
  | SetValue string

record World =
  files :: "string \<rightharpoonup> string"
  folders :: "string set"
  trace :: "event list"

record TagInfo =
  fileLink :: string
  tagMatches :: "string list"

definition logEvent :: "event \<Rightarrow> World \<Rightarrow> World" where
  "logEvent e w = w\<lparr>trace := trace w @ [e]\<rparr>"

text \<open>\<^verbatim>\<open>vault.getAbstractFileByPath\<close>: the file or folder at a path, or \<^verbatim>\<open>null\<close>.\<close>

definition getAbstractFileByPath :: "World \<Rightarrow> string \<Rightarrow> TAbstractFile option" where
  "getAbstractFileByPath w p =
     (case files w p of
        Some _ \<Rightarrow> Some (TFile p)
      | None \<Rightarrow> if p \<in> folders w then Some (TFolder p) else None)"

text \<open>\<^verbatim>\<open>vault.adapter.exists\<close>.\<close>

definition adapter_exists :: "World \<Rightarrow> string \<Rightarrow> bool" where
  "adapter_exists w p = (files w p \<noteq> None \<or> p \<in> folders w)"

text \<open>
  The folder a path lies in: the path up to its last slash, the empty path (the root of
  the vault) when it has none. The root always exists.
\<close>

definition parentPath :: "string \<Rightarrow> string" where
  "parentPath p = rev (drop 1 (dropWhile (\<lambda>c. c \<noteq> CHR ''/'') (rev p)))"

definition folderExists :: "World \<Rightarrow> string \<Rightarrow> bool" where
  "folderExists w d = (d = [] \<or> d \<in> folders w)"

text \<open>
  \<^verbatim>\<open>vault.createFolder\<close>: what the call does to the vault once the host has carried it
  out. The call is recorded where it is made, since its caller does not wait for it.
\<close>

definition createFolder :: "World \<Rightarrow> string \<Rightarrow> World" where
  "createFolder w p =
     (if adapter_exists w p then w else w\<lparr>folders := insert p (folders w)\<rparr>)"

text \<open>
  \<^verbatim>\<open>vault.create\<close>: rejects when something already is at the path, and when the folder
  the path lies in does not exist.
\<close>

definition create :: "World \<Rightarrow> string \<Rightarrow> string \<Rightarrow> (error + TAbstractFile) \<times> World" where
  "create w p data =
     (if adapter_exists w p
      then (Inl (FileAlreadyExists p), logEvent (Create p data) w)
      else if \<not> folderExists w (parentPath p)
      then (Inl (NoSuchFolder (parentPath p)), logEvent (Create p data) w)
      else (Inr (TFile p), logEvent (Create p data) (w\<lparr>files := (files w)(p \<mapsto> data)\<rparr>)))"

text \<open>\<^verbatim>\<open>workspace.getLeaf().openFile\<close>.\<close>

definition openFile :: "World \<Rightarrow> TAbstractFile \<Rightarrow> World" where
  "openFile w f = logEvent (OpenFile (pathOf f)) w"

subsection \<open>createTagPage\<close>

text \<open>
  The imported \<^verbatim>\<open>fetchTagData(app, settings, tag)\<close> and
  \<^verbatim>\<open>generateTagPageContent(settings, tagsInfo, tag)\<close> are parameters; both are awaited,
  so either may reject, and a rejection ends the command. Each call of one of them is
  recorded in the trace before its result is looked at.
\<close>

type_synonym fetcher = "World \<Rightarrow> PluginSettings \<Rightarrow> string \<Rightarrow> error + TagInfo list"
type_synonym generator = "PluginSettings \<Rightarrow> TagInfo list \<Rightarrow> string \<Rightarrow> error + string"

text \<open>Line 102: \<^verbatim>\<open>const tagOfInterest = tag.startsWith('#') ? tag : `#${tag}`\<close>.\<close>

definition tagOfInterest :: "string \<Rightarrow> string" where
  "tagOfInterest tag = (if startsWith tag ''#'' then tag else ''#'' @ tag)"

text \<open>The path \<^verbatim>\<open>`${this.settings.tagPageDir}/${tagOfInterest}.md`\<close> of lines 106 and 132.\<close>

definition tagPagePath :: "PluginSettings \<Rightarrow> string \<Rightarrow> string" where
  "tagPagePath settings t = tagPageDir settings @ ''/'' @ t @ ''.md''"

text \<open>
  Lines 122 to 139, the chain that writes the page:
  \<^verbatim>\<open>adapter.exists(tagPageDir).then(exists => { if (!exists) createFolder(tagPageDir) })\<close>
  \<^verbatim>\<open>.then(() => create(path, content)).then(createdPage => openFile(createdPage))\<close>.
  The promise of \<^verbatim>\<open>createFolder\<close> is neither awaited nor returned, so \<^verbatim>\<open>create\<close> is
  called without waiting for the folder: whether the folder is there when the host
  carries out \<^verbatim>\<open>create\<close> is up to the host. The argument \<open>folderFirst\<close> is that
  choice: when it is false, \<^verbatim>\<open>create\<close> meets the vault without the folder, and the
  folder appears afterwards. A rejection of \<^verbatim>\<open>create\<close> skips the opening and is what the
  awaited chain rejects with.
\<close>

definition writeTagPage ::
  "bool \<Rightarrow> PluginSettings \<Rightarrow> string \<Rightarrow> string \<Rightarrow> World \<Rightarrow> (error + unit) \<times> World" where
  "writeTagPage folderFirst settings p tagPageContentString w =
     (let missing = \<not> adapter_exists w (tagPageDir settings);
          w1 = (if missing then logEvent (CreateFolder (tagPageDir settings)) w else w);
          atCreate = (if missing \<and> folderFirst then createFolder w1 (tagPageDir settings)
                      else w1);
          later = (\<lambda>v. if missing \<and> \<not> folderFirst then createFolder v (tagPageDir settings)
                       else v)
      in case create atCreate p tagPageContentString of
           (Inl e, w2) \<Rightarrow> (Inl e, later w2)
         | (Inr createdPage, w2) \<Rightarrow> (Inr (), openFile (later w2) createdPage))"

text \<open>\<^verbatim>\<open>createTagPage\<close>, lines 100 to 149.\<close>

definition createTagPage ::
  "fetcher \<Rightarrow> generator \<Rightarrow> bool \<Rightarrow> PluginSettings \<Rightarrow> string \<Rightarrow> World
     \<Rightarrow> (error + unit) \<times> World" where
  "createTagPage fetch generate folderFirst settings tag w =
     (let t = tagOfInterest tag in
      case getAbstractFileByPath w (tagPagePath settings t) of
        None \<Rightarrow>
          (let w1 = logEvent (FetchTagData t) w in
           case fetch w settings t of
             Inl e \<Rightarrow> (Inl e, w1)
           | Inr tagsInfo \<Rightarrow>
               (let w2 = logEvent (GenerateTagPageContent t) w1 in
                case generate settings tagsInfo t of
                  Inl e \<Rightarrow> (Inl e, w2)
                | Inr tagPageContentString \<Rightarrow>
                    writeTagPage folderFirst settings (tagPagePath settings t)
                      tagPageContentString w2))
      | Some tagPage \<Rightarrow> (Inr (), openFile w tagPage))"

subsection \<open>refreshTagPageContent\<close>

text \<open>
  The view handed to the refresh callback: its editor (here the text the editor holds),
  absent for a view without one, and the file it shows (\<^verbatim>\<open>activeLeaf.file\<close>, here its
  path), absent when the view shows none. An absent view is \<open>None\<close>
  (\<^verbatim>\<open>activeLeaf?.editor\<close>).

  The method is embedded as called on the plugin: \<^verbatim>\<open>this.settings\<close> is the argument
  \<open>settings\<close>. It returns the outcome, the view with its editor as the call leaves it,
  and the host's state. Lines 73 to 98.
\<close>

record MarkdownView =
  editor :: "string option"
  viewFile :: "string option"

definition refreshTagPageContent ::
  "fetcher \<Rightarrow> generator \<Rightarrow> PluginSettings \<Rightarrow> MarkdownView option \<Rightarrow> string \<Rightarrow> World
     \<Rightarrow> (error + unit) \<times> MarkdownView option \<times> World" where
  "refreshTagPageContent fetch generate settings activeLeaf t w =
     (let w1 = logEvent (FetchTagData t) w in
      case fetch w settings t of
        Inl e \<Rightarrow> (Inl e, activeLeaf, w1)
      | Inr tagsInfo \<Rightarrow>
          (let w2 = logEvent (GenerateTagPageContent t) w1 in
           case generate settings tagsInfo t of
             Inl e \<Rightarrow> (Inl e, activeLeaf, w2)
           | Inr tagPageContentString \<Rightarrow>
               (case activeLeaf of
                  None \<Rightarrow> (Inr (), activeLeaf, w2)
                | Some view \<Rightarrow>
                    (case editor view of
                       None \<Rightarrow> (Inr (), activeLeaf, w2)
                     | Some _ \<Rightarrow>
                         (case viewFile view of
                            None \<Rightarrow> (Inr (), activeLeaf, w2)
                          | Some currentFile \<Rightarrow>
                              if includes_str currentFile (tagPageDir settings)
                              then (Inr (),
                                    Some (view\<lparr>editor := Some tagPageContentString\<rparr>),
                                    logEvent (SetValue tagPageContentString) w2)
                              else (Inr (), activeLeaf, w2))))))"

section \<open>The Indexer and the Generator, from the specification\<close>

text \<open>
  \<^verbatim>\<open>utils/tagSearch\<close> and \<^verbatim>\<open>utils/pageContent\<close> are not among the sources. What follows
  is the specification's description of the two stages (sections 3, 4.1, 4.2, 6 and 7
  of the specification), written as functions.
\<close>

subsection \<open>Documents\<close>

text \<open>
  Modelled from the spec: a document of the store (the sources do not hold the store's
  adapter): its path, its text, and its frontmatter as key and value pairs. The text is
  absent for a document that could not be read.
\<close>

record Document =
  path :: string
  content :: "string option"
  frontmatter :: "(string \<times> string) list"

subsection \<open>Tags and tokens\<close>

text \<open>
  Modelled from the spec: the normalisation of the tag of interest (the Indexer of
  \<^verbatim>\<open>utils/tagSearch\<close> is absent): ``adds the marker if absent''.
\<close>

definition normalizeTag :: "string \<Rightarrow> string" where
  "normalizeTag t = (if startsWith t ''#'' then t else ''#'' @ t)"

text \<open>
  Modelled from the spec: the tags section 7 rejects as \<^verbatim>\<open>InvalidTagInput\<close> (no
  validation function is among the sources): ``empty or contains only the marker
  character''.
\<close>

definition invalidTagInput :: "string \<Rightarrow> bool" where
  "invalidTagInput t = (t = [] \<or> list_all (\<lambda>c. c = CHR ''#'') t)"

text \<open>
  Modelled from the spec: the characters that continue a tag-like token (the matcher of
  \<^verbatim>\<open>utils/tagSearch\<close> is absent). The specification does not list them; these are the
  characters the host allows in a tag name: letters, digits, underscore, hyphen and
  slash.
\<close>

definition tagChars :: string where
  "tagChars = ''abcdefghijklmnopqrstuvwxyzABCDEFGHIJKLMNOPQRSTUVWXYZ0123456789_-/''"

definition isTagChar :: "char \<Rightarrow> bool" where
  "isTagChar c = (c \<in> set tagChars)"

text \<open>
  Modelled from the spec: the inline match rule (the matcher of \<^verbatim>\<open>utils/tagSearch\<close> is
  absent). The tag occurs in a line ``as a whole token'' when some occurrence of it is
  not continued by a tag character; an occurrence that is continued is a strict prefix
  of a longer tag-like token and does not count.
\<close>

definition tokenEnds :: "string \<Rightarrow> bool" where
  "tokenEnds rest = (case rest of [] \<Rightarrow> True | c # _ \<Rightarrow> \<not> isTagChar c)"

fun occursAsToken :: "string \<Rightarrow> string \<Rightarrow> bool" where
  "occursAsToken tag [] = (tag = [])"
| "occursAsToken tag (c # cs) =
     ((startsWith (c # cs) tag \<and> tokenEnds (drop (length tag) (c # cs)))
      \<or> occursAsToken tag cs)"

definition newline :: char where
  "newline = CHR 0x0A"

text \<open>
  Modelled from the spec: the text of a document as its ``ordered sequence of lines''
  (the reader of \<^verbatim>\<open>utils/tagSearch\<close> is absent): the text split at every line feed.
\<close>

fun splitLines :: "string \<Rightarrow> string list" where
  "splitLines [] = [[]]"
| "splitLines (c # cs) =
     (if c = newline then [] # splitLines cs
      else (case splitLines cs of [] \<Rightarrow> [[c]] | l # ls \<Rightarrow> (c # l) # ls))"

text \<open>
  Modelled from the spec: the evidence of the inline rule (absent with
  \<^verbatim>\<open>utils/tagSearch\<close>): every line with at least one whole-token occurrence, in the
  order of the lines, each once.
\<close>

definition inlineMatches :: "string \<Rightarrow> string \<Rightarrow> string list" where
  "inlineMatches tag text = filter (occursAsToken tag) (splitLines text)"

text \<open>
  Modelled from the spec: the frontmatter-query rule (absent with \<^verbatim>\<open>utils/tagSearch\<close>):
  the frontmatter has the configured key and its value equals the normalised tag. Its
  evidence is the one synthetic entry the specification gives as an example.
\<close>

definition frontmatterMatch :: "PluginSettings \<Rightarrow> string \<Rightarrow> Document \<Rightarrow> bool" where
  "frontmatterMatch config tag d =
     (map_of (frontmatter d) (frontmatterQueryProperty config) = Some tag)"

definition frontmatterMarker :: string where
  "frontmatterMarker = ''matched via frontmatter query''"

text \<open>
  Modelled from the spec: \<^verbatim>\<open>fileLink\<close>, ``a reference usable by the output format to link
  back to the source document (derived from its path)'' (absent with
  \<^verbatim>\<open>utils/tagSearch\<close>); the specification does not fix its form, the host's link syntax
  is taken.
\<close>

definition fileLinkOf :: "string \<Rightarrow> string" where
  "fileLinkOf p = ''[['' @ p @ '']]''"

text \<open>
  Modelled from the spec: ``pages already living inside \<^verbatim>\<open>config.tagPageDir\<close>'' (absent
  with \<^verbatim>\<open>utils/tagSearch\<close>): the path starts with the directory and a slash.
\<close>

definition insideTagPageDir :: "PluginSettings \<Rightarrow> Document \<Rightarrow> bool" where
  "insideTagPageDir config d = startsWith (path d) (tagPageDir config @ ''/'')"

subsection \<open>The Indexer\<close>

text \<open>
  Modelled from the spec: the match record of one document (absent with
  \<^verbatim>\<open>utils/tagSearch\<close>): nothing for a document that cannot be read or that matches
  neither rule, otherwise one record with the inline lines first and the frontmatter
  marker last.
\<close>

definition indexDoc :: "PluginSettings \<Rightarrow> string \<Rightarrow> Document \<Rightarrow> TagInfo option" where
  "indexDoc config tag d =
     (case content d of
        None \<Rightarrow> None
      | Some text \<Rightarrow>
          (let evidence = inlineMatches tag text
                 @ (if frontmatterMatch config tag d then [frontmatterMarker] else [])
           in if evidence = [] then None
              else Some \<lparr>fileLink = fileLinkOf (path d), tagMatches = evidence\<rparr>))"

text \<open>
  Modelled from the spec: the matching documents with their paths, sorted by path as the
  final step (absent with \<^verbatim>\<open>utils/tagSearch\<close>). Pages inside the tag page directory
  are not scanned.
\<close>

definition keyedMatch :: "PluginSettings \<Rightarrow> string \<Rightarrow> Document \<Rightarrow> (string \<times> TagInfo) option" where
  "keyedMatch config tag d = map_option (Pair (path d)) (indexDoc config tag d)"

definition indexKeyed :: "Document list \<Rightarrow> string \<Rightarrow> PluginSettings \<Rightarrow> (string \<times> TagInfo) list" where
  "indexKeyed documents tag config =
     sort_key fst
       (List.map_filter (keyedMatch config tag)
          (filter (\<lambda>d. \<not> insideTagPageDir config d) documents))"

text \<open>
  Modelled from the spec: \<^verbatim>\<open>index(documents, tagOfInterest, config)\<close> of section 4.1
  (\<^verbatim>\<open>utils/tagSearch\<close> is absent): an invalid tag is refused before any scan, otherwise
  the tag is normalised and the sorted match records are returned.
\<close>

definition index :: "Document list \<Rightarrow> string \<Rightarrow> PluginSettings \<Rightarrow> error + TagInfo list" where
  "index documents tag config =
     (if invalidTagInput tag then Inl InvalidTagInput
      else Inr (map snd (indexKeyed documents (normalizeTag tag) config)))"

subsection \<open>The Generator\<close>

text \<open>
  Modelled from the spec: \<^verbatim>\<open>render(config, tagInfos, tagOfInterest)\<close> of section 4.2 and
  the layout of section 6 (\<^verbatim>\<open>utils/pageContent\<close> is absent): a heading naming the
  normalised tag, an empty line, then one list item per record with its evidence lines
  nested beneath, or a notice when there is no record. The specification asks for
  special characters to be rendered safely and leaves the scheme open: it is the
  parameter \<open>esc\<close>. The wording of the notice is not fixed by the specification either.
\<close>

definition unlines :: "string list \<Rightarrow> string" where
  "unlines ls = concat (map (\<lambda>l. l @ [newline]) ls)"

definition noMatchesNotice :: string where
  "noMatchesNotice = ''No matches found.''"

definition renderItem :: "(string \<Rightarrow> string) \<Rightarrow> PluginSettings \<Rightarrow> TagInfo \<Rightarrow> string list" where
  "renderItem esc config info =
     (''- '' @ esc (fileLink info))
     # (if includeLines config = Some True
        then map (\<lambda>l. (if bulletedSubItems config = Some True then ''  - '' else ''  '') @ esc l)
               (tagMatches info)
        else [])"

definition heading :: "string \<Rightarrow> string" where
  "heading tag = ''# '' @ normalizeTag tag"

definition render :: "(string \<Rightarrow> string) \<Rightarrow> PluginSettings \<Rightarrow> TagInfo list \<Rightarrow> string \<Rightarrow> string" where
  "render esc config tagInfos tag =
     unlines (heading tag # [] #
       (if tagInfos = [] then [noMatchesNotice]
        else concat (map (renderItem esc config) tagInfos)))"

subsection \<open>The example of the specification\<close>

text \<open>
  The three documents of the example in section 8 of the specification, with the
  default settings' query property as the frontmatter key.
\<close>

definition exampleA :: Document where
  "exampleA = \<lparr>path = ''A.md'', content = Some ''See #proj today'', frontmatter = []\<rparr>"

definition exampleB :: Document where
  "exampleB = \<lparr>path = ''B.md'', content = Some ''#projects kickoff'', frontmatter = []\<rparr>"

definition exampleC :: Document where
  "exampleC = \<lparr>path = ''C.md'', content = Some ''unrelated'',
                frontmatter = [(''tage-page-query'', ''#proj'')]\<rparr>"

section \<open>Properties of the code\<close>

lemma Object_assign_defaults:
  "Object_assign Map.empty [Some d, None] = d"
  "Object_assign Map.empty [Some d, Some s] = d ++ s"
  by (simp_all add: Object_assign_def)

text \<open>
  C9. Loading the settings when nothing is stored gives the defaults; a property the
  stored record omits gets the default of \<^verbatim>\<open>DEFAULT_SETTINGS\<close> (\<^verbatim>\<open>tagPageDir\<close> is
  \<^verbatim>\<open>"Tags"\<close>, \<^verbatim>\<open>frontmatterQueryProperty\<close> is \<^verbatim>\<open>"tage-page-query"\<close>,
  \<^verbatim>\<open>bulletedSubItems\<close> and \<^verbatim>\<open>includeLines\<close> are \<^verbatim>\<open>true\<close>); a property the stored
  record has keeps the stored value.
\<close>

theorem loadSettings_defaults:
  "loadSettings None = settingsObject DEFAULT_SETTINGS
   \<and> (k \<notin> dom stored \<longrightarrow> loadSettings (Some stored) k = settingsObject DEFAULT_SETTINGS k)
   \<and> (k \<in> dom stored \<longrightarrow> loadSettings (Some stored) k = stored k)
   \<and> settingsObject DEFAULT_SETTINGS ''tagPageDir'' = Some (JString ''Tags'')
   \<and> settingsObject DEFAULT_SETTINGS ''frontmatterQueryProperty''
       = Some (JString ''tage-page-query'')
   \<and> settingsObject DEFAULT_SETTINGS ''bulletedSubItems'' = Some (JBoolean True)
   \<and> settingsObject DEFAULT_SETTINGS ''includeLines'' = Some (JBoolean True)"
proof -
  have "loadSettings None = settingsObject DEFAULT_SETTINGS"
    by (simp add: loadSettings_def Object_assign_defaults)
  moreover have "k \<notin> dom stored \<longrightarrow>
      loadSettings (Some stored) k = settingsObject DEFAULT_SETTINGS k"
    by (auto simp: loadSettings_def Object_assign_defaults map_add_def split: option.splits)
  moreover have "k \<in> dom stored \<longrightarrow> loadSettings (Some stored) k = stored k"
    by (auto simp: loadSettings_def Object_assign_defaults map_add_def split: option.splits)
  moreover have "settingsObject DEFAULT_SETTINGS ''tagPageDir'' = Some (JString ''Tags'')"
    "settingsObject DEFAULT_SETTINGS ''frontmatterQueryProperty''
       = Some (JString ''tage-page-query'')"
    "settingsObject DEFAULT_SETTINGS ''bulletedSubItems'' = Some (JBoolean True)"
    "settingsObject DEFAULT_SETTINGS ''includeLines'' = Some (JBoolean True)"
    by (simp_all add: settingsObject_def DEFAULT_SETTINGS_def)
  ultimately show ?thesis by blast
qed

theorem loadSettings_defaults_witness:
  "loadSettings (Some [''tagPageDir'' \<mapsto> JString ''Pages'']) ''includeLines''
     = Some (JBoolean True)
   \<and> loadSettings (Some [''tagPageDir'' \<mapsto> JString ''Pages'']) ''tagPageDir''
     = Some (JString ''Pages'')"
  using loadSettings_defaults [where k = "''includeLines''"
          and stored = "[''tagPageDir'' \<mapsto> JString ''Pages'']"]
        loadSettings_defaults [where k = "''tagPageDir''"
          and stored = "[''tagPageDir'' \<mapsto> JString ''Pages'']"]
  by simp

subsection \<open>Strings\<close>

lemma startsWith_iff: "startsWith s p \<longleftrightarrow> (\<exists>post. s = p @ post)"
  unfolding startsWith_def
proof
  assume "take (length p) s = p"
  then have "s = p @ drop (length p) s" by (metis append_take_drop_id)
  then show "\<exists>post. s = p @ post" ..
next
  assume "\<exists>post. s = p @ post"
  then show "take (length p) s = p" by auto
qed

lemma includes_str_iff: "includes_str s p \<longleftrightarrow> (\<exists>pre post. s = pre @ p @ post)"
proof (induction s)
  case Nil
  then show ?case by auto
next
  case (Cons c cs)
  show ?case
  proof
    assume "includes_str (c # cs) p"
    then consider "startsWith (c # cs) p" | "includes_str cs p" by auto
    then show "\<exists>pre post. c # cs = pre @ p @ post"
    proof cases
      case 1
      then obtain post where "c # cs = p @ post" by (auto simp: startsWith_iff)
      then have "c # cs = [] @ p @ post" by simp
      then show ?thesis by blast
    next
      case 2
      then obtain pre post where "cs = pre @ p @ post" using Cons.IH by auto
      then have "c # cs = (c # pre) @ p @ post" by simp
      then show ?thesis by blast
    qed
  next
    assume "\<exists>pre post. c # cs = pre @ p @ post"
    then obtain pre post where eq: "c # cs = pre @ p @ post" by auto
    show "includes_str (c # cs) p"
    proof (cases pre)
      case Nil
      with eq have "startsWith (c # cs) p" by (auto simp: startsWith_iff)
      then show ?thesis by simp
    next
      case (Cons a pre')
      with eq have "cs = pre' @ p @ post" by simp
      then have "includes_str cs p" using Cons.IH by blast
      then show ?thesis by simp
    qed
  qed
qed

subsection \<open>Normalisation of the tag by createTagPage\<close>

lemma tagOfInterest_marker: "startsWith (tagOfInterest tag) ''#''"
  by (auto simp: tagOfInterest_def startsWith_def)

lemma tagOfInterest_unmarked: "\<not> startsWith t ''#'' \<Longrightarrow> tagOfInterest t = ''#'' @ t"
  by (simp add: tagOfInterest_def)

lemma tagOfInterest_marked: "tagOfInterest (''#'' @ t) = ''#'' @ t"
  by (simp add: tagOfInterest_def startsWith_def)

lemma createTagPage_unfold:
  "createTagPage fetch generate folderFirst settings tag w =
     (case getAbstractFileByPath w (tagPageDir settings @ ''/'' @ tagOfInterest tag @ ''.md'') of
        None \<Rightarrow>
          (case fetch w settings (tagOfInterest tag) of
             Inl e \<Rightarrow> (Inl e, logEvent (FetchTagData (tagOfInterest tag)) w)
           | Inr tagsInfo \<Rightarrow>
               (case generate settings tagsInfo (tagOfInterest tag) of
                  Inl e \<Rightarrow>
                    (Inl e, logEvent (GenerateTagPageContent (tagOfInterest tag))
                              (logEvent (FetchTagData (tagOfInterest tag)) w))
                | Inr s \<Rightarrow>
                    writeTagPage folderFirst settings
                      (tagPageDir settings @ ''/'' @ tagOfInterest tag @ ''.md'') s
                      (logEvent (GenerateTagPageContent (tagOfInterest tag))
                         (logEvent (FetchTagData (tagOfInterest tag)) w))))
      | Some tagPage \<Rightarrow> (Inr (), openFile w tagPage))"
  by (simp add: createTagPage_def tagPagePath_def Let_def split: option.splits sum.splits)

text \<open>
  C3. For a tag \<open>t\<close> that does not start with \<^verbatim>\<open>#\<close>, \<^verbatim>\<open>createTagPage\<close> turns both \<open>t\<close>
  and \<^verbatim>\<open>#\<close> followed by \<open>t\<close> into the same tag of interest, \<^verbatim>\<open>#\<close> followed by \<open>t\<close>;
  the two calls give the same result, and that result is the one for the canonical tag:
  the page looked for, and opened when it is there, is \<^verbatim>\<open>tagPageDir/#t.md\<close>; otherwise
  the scan is called with \<^verbatim>\<open>#t\<close>, then the generator with \<^verbatim>\<open>#t\<close>, and the page is
  written at \<^verbatim>\<open>tagPageDir/#t.md\<close>. This holds whatever the scan and the generator are.
\<close>

theorem createTagPage_normalizes:
  assumes "\<not> startsWith t ''#''"
  shows "tagOfInterest t = ''#'' @ t
       \<and> tagOfInterest (''#'' @ t) = ''#'' @ t
       \<and> createTagPage fetch generate folderFirst settings t w
           = createTagPage fetch generate folderFirst settings (''#'' @ t) w
       \<and> createTagPage fetch generate folderFirst settings t w
           = (case getAbstractFileByPath w (tagPageDir settings @ ''/'' @ ''#'' @ t @ ''.md'') of
                Some tagPage \<Rightarrow> (Inr (), openFile w tagPage)
              | None \<Rightarrow>
                  (case fetch w settings (''#'' @ t) of
                     Inl e \<Rightarrow> (Inl e, logEvent (FetchTagData (''#'' @ t)) w)
                   | Inr tagsInfo \<Rightarrow>
                       (case generate settings tagsInfo (''#'' @ t) of
                          Inl e \<Rightarrow>
                            (Inl e, logEvent (GenerateTagPageContent (''#'' @ t))
                                      (logEvent (FetchTagData (''#'' @ t)) w))
                        | Inr s \<Rightarrow>
                            writeTagPage folderFirst settings
                              (tagPageDir settings @ ''/'' @ ''#'' @ t @ ''.md'') s
                              (logEvent (GenerateTagPageContent (''#'' @ t))
                                 (logEvent (FetchTagData (''#'' @ t)) w)))))"
proof -
  have a: "tagOfInterest t = ''#'' @ t"
    using assms by (rule tagOfInterest_unmarked)
  have b: "tagOfInterest (''#'' @ t) = ''#'' @ t"
    by (rule tagOfInterest_marked)
  have c: "createTagPage fetch generate folderFirst settings t w
           = createTagPage fetch generate folderFirst settings (''#'' @ t) w"
    unfolding createTagPage_def a b ..
  have d: "createTagPage fetch generate folderFirst settings t w
           = (case getAbstractFileByPath w (tagPageDir settings @ ''/'' @ ''#'' @ t @ ''.md'') of
                Some tagPage \<Rightarrow> (Inr (), openFile w tagPage)
              | None \<Rightarrow>
                  (case fetch w settings (''#'' @ t) of
                     Inl e \<Rightarrow> (Inl e, logEvent (FetchTagData (''#'' @ t)) w)
                   | Inr tagsInfo \<Rightarrow>
                       (case generate settings tagsInfo (''#'' @ t) of
                          Inl e \<Rightarrow>
                            (Inl e, logEvent (GenerateTagPageContent (''#'' @ t))
                                      (logEvent (FetchTagData (''#'' @ t)) w))
                        | Inr s \<Rightarrow>
                            writeTagPage folderFirst settings
                              (tagPageDir settings @ ''/'' @ ''#'' @ t @ ''.md'') s
                              (logEvent (GenerateTagPageContent (''#'' @ t))
                                 (logEvent (FetchTagData (''#'' @ t)) w)))))"
    unfolding createTagPage_unfold a by (simp split: option.splits sum.splits)
  from a b c d show ?thesis by blast
qed

theorem createTagPage_normalizes_witness:
  "\<not> startsWith ''work'' ''#''
   \<and> createTagPage (\<lambda>w s t. Inr []) (\<lambda>s i t. Inr (''# '' @ t)) True DEFAULT_SETTINGS ''work''
        \<lparr>files = Map.empty, folders = {}, trace = []\<rparr>
      = (Inr (),
         \<lparr>files = [''Tags/#work.md'' \<mapsto> ''# #work''], folders = {''Tags''},
          trace = [FetchTagData ''#work'', GenerateTagPageContent ''#work'',
                   CreateFolder ''Tags'', Create ''Tags/#work.md'' ''# #work'',
                   OpenFile ''Tags/#work.md'']\<rparr>)
   \<and> createTagPage (\<lambda>w s t. Inr []) (\<lambda>s i t. Inr (''# '' @ t)) True DEFAULT_SETTINGS ''#work''
        \<lparr>files = Map.empty, folders = {}, trace = []\<rparr>
      = (Inr (),
         \<lparr>files = [''Tags/#work.md'' \<mapsto> ''# #work''], folders = {''Tags''},
          trace = [FetchTagData ''#work'', GenerateTagPageContent ''#work'',
                   CreateFolder ''Tags'', Create ''Tags/#work.md'' ''# #work'',
                   OpenFile ''Tags/#work.md'']\<rparr>)"
proof -
  let ?fetch = "\<lambda>(w::World) (s::PluginSettings) (t::string). Inr [] :: error + TagInfo list"
  let ?generate = "\<lambda>(s::PluginSettings) (i::TagInfo list) (t::string).
                     Inr (''# '' @ t) :: error + string"
  let ?w = "\<lparr>files = Map.empty, folders = {}, trace = []\<rparr>"
  let ?r = "(Inr (),
         \<lparr>files = [''Tags/#work.md'' \<mapsto> ''# #work''], folders = {''Tags''},
          trace = [FetchTagData ''#work'', GenerateTagPageContent ''#work'',
                   CreateFolder ''Tags'', Create ''Tags/#work.md'' ''# #work'',
                   OpenFile ''Tags/#work.md'']\<rparr>)"
  have h: "\<not> startsWith ''work'' ''#''" by (simp add: startsWith_def)
  note n = createTagPage_normalizes [OF h, of ?fetch ?generate True DEFAULT_SETTINGS ?w]
  from n have same: "createTagPage ?fetch ?generate True DEFAULT_SETTINGS ''work'' ?w
      = createTagPage ?fetch ?generate True DEFAULT_SETTINGS (''#'' @ ''work'') ?w"
    by blast
  from n have "createTagPage ?fetch ?generate True DEFAULT_SETTINGS ''work'' ?w
      = (case getAbstractFileByPath ?w (tagPageDir DEFAULT_SETTINGS @ ''/'' @ ''#'' @ ''work'' @ ''.md'') of
           Some tagPage \<Rightarrow> (Inr (), openFile ?w tagPage)
         | None \<Rightarrow>
             (case ?fetch ?w DEFAULT_SETTINGS (''#'' @ ''work'') of
                Inl e \<Rightarrow> (Inl e, logEvent (FetchTagData (''#'' @ ''work'')) ?w)
              | Inr tagsInfo \<Rightarrow>
                  (case ?generate DEFAULT_SETTINGS tagsInfo (''#'' @ ''work'') of
                     Inl e \<Rightarrow>
                       (Inl e, logEvent (GenerateTagPageContent (''#'' @ ''work''))
                                 (logEvent (FetchTagData (''#'' @ ''work'')) ?w))
                   | Inr s \<Rightarrow>
                       writeTagPage True DEFAULT_SETTINGS
                         (tagPageDir DEFAULT_SETTINGS @ ''/'' @ ''#'' @ ''work'' @ ''.md'') s
                         (logEvent (GenerateTagPageContent (''#'' @ ''work''))
                            (logEvent (FetchTagData (''#'' @ ''work'')) ?w)))))"
    by blast
  also have "\<dots> = ?r"
    by (simp add: DEFAULT_SETTINGS_def getAbstractFileByPath_def writeTagPage_def
        adapter_exists_def createFolder_def create_def folderExists_def parentPath_def
        openFile_def logEvent_def)
  finally have val: "createTagPage ?fetch ?generate True DEFAULT_SETTINGS ''work'' ?w = ?r" .
  from same val have "createTagPage ?fetch ?generate True DEFAULT_SETTINGS ''#work'' ?w = ?r"
    by simp
  with h val show ?thesis by blast
qed

subsection \<open>Writing the page without waiting for the folder\<close>

text \<open>
  On a vault without the tag page directory the outcome depends on whether the folder
  is there when the host carries out \<^verbatim>\<open>create\<close>: if it is, the page is created and
  opened; if it is not, \<^verbatim>\<open>create\<close> rejects, nothing is opened, and the folder appears
  all the same.
\<close>

lemma writeTagPage_folder_in_time:
  "writeTagPage True DEFAULT_SETTINGS ''Tags/#work.md'' ''# #work''
     \<lparr>files = Map.empty, folders = {}, trace = []\<rparr>
   = (Inr (),
      \<lparr>files = [''Tags/#work.md'' \<mapsto> ''# #work''], folders = {''Tags''},
       trace = [CreateFolder ''Tags'', Create ''Tags/#work.md'' ''# #work'',
                OpenFile ''Tags/#work.md'']\<rparr>)"
  by (simp add: DEFAULT_SETTINGS_def writeTagPage_def adapter_exists_def createFolder_def
      create_def folderExists_def parentPath_def openFile_def logEvent_def)

lemma writeTagPage_folder_late:
  "writeTagPage False DEFAULT_SETTINGS ''Tags/#work.md'' ''# #work''
     \<lparr>files = Map.empty, folders = {}, trace = []\<rparr>
   = (Inl (NoSuchFolder ''Tags''),
      \<lparr>files = Map.empty, folders = {''Tags''},
       trace = [CreateFolder ''Tags'', Create ''Tags/#work.md'' ''# #work'']\<rparr>)"
  by (simp add: DEFAULT_SETTINGS_def writeTagPage_def adapter_exists_def createFolder_def
      create_def folderExists_def parentPath_def openFile_def logEvent_def)

subsection \<open>An existing tag page is only opened\<close>

text \<open>
  C10. When a file (or folder) already is at \<^verbatim>\<open>tagPageDir/<normalised tag>.md\<close>,
  \<^verbatim>\<open>createTagPage\<close> succeeds, leaves every file and folder as it was, and its only call
  into the host is to open that page: no scan, no render, no folder or file created.
\<close>

theorem createTagPage_existing_page:
  assumes "getAbstractFileByPath w (tagPagePath settings (tagOfInterest tag)) = Some tagPage"
  shows "createTagPage fetch generate folderFirst settings tag w
           = (Inr (), w\<lparr>trace := trace w @ [OpenFile (tagPagePath settings (tagOfInterest tag))]\<rparr>)"
proof -
  have "pathOf tagPage = tagPagePath settings (tagOfInterest tag)"
    using assms by (auto simp: getAbstractFileByPath_def split: option.splits if_splits)
  then show ?thesis
    using assms by (simp add: createTagPage_def openFile_def logEvent_def)
qed

theorem createTagPage_existing_page_witness:
  "getAbstractFileByPath
      \<lparr>files = [''Tags/#work.md'' \<mapsto> ''kept''], folders = {''Tags''}, trace = []\<rparr>
      (tagPagePath DEFAULT_SETTINGS (tagOfInterest ''work'')) = Some (TFile ''Tags/#work.md'')
   \<and> createTagPage (\<lambda>w s t. Inr []) (\<lambda>s i t. Inr ''new text'') True DEFAULT_SETTINGS ''work''
        \<lparr>files = [''Tags/#work.md'' \<mapsto> ''kept''], folders = {''Tags''}, trace = []\<rparr>
      = (Inr (), \<lparr>files = [''Tags/#work.md'' \<mapsto> ''kept''], folders = {''Tags''},
                  trace = [OpenFile ''Tags/#work.md'']\<rparr>)"
proof -
  have p: "tagPagePath DEFAULT_SETTINGS (tagOfInterest ''work'') = ''Tags/#work.md''"
    by (simp add: tagPagePath_def tagOfInterest_def startsWith_def DEFAULT_SETTINGS_def)
  have h: "getAbstractFileByPath
      \<lparr>files = [''Tags/#work.md'' \<mapsto> ''kept''], folders = {''Tags''}, trace = []\<rparr>
      (tagPagePath DEFAULT_SETTINGS (tagOfInterest ''work'')) = Some (TFile ''Tags/#work.md'')"
    by (simp add: p getAbstractFileByPath_def)
  from createTagPage_existing_page [OF h] h show ?thesis by (simp add: p)
qed

subsection \<open>createTagPage does not validate the tag\<close>

lemma invalidTagInput_tagOfInterest:
  "invalidTagInput tag \<Longrightarrow> invalidTagInput (tagOfInterest tag)"
  by (auto simp: invalidTagInput_def tagOfInterest_def)

lemma createTagPage_opens_existing:
  assumes "getAbstractFileByPath w (tagPagePath settings (tagOfInterest tag)) = Some tagPage"
  shows "createTagPage fetch generate folderFirst settings tag w = (Inr (), openFile w tagPage)"
  using assms by (simp add: createTagPage_def)

lemma createTagPage_fetch_rejects:
  assumes "getAbstractFileByPath w (tagPagePath settings (tagOfInterest tag)) = None"
    and "fetch w settings (tagOfInterest tag) = Inl e"
  shows "createTagPage fetch generate folderFirst settings tag w
           = (Inl e, logEvent (FetchTagData (tagOfInterest tag)) w)"
  using assms by (simp add: createTagPage_def)

lemma createTagPage_generate_rejects:
  assumes "getAbstractFileByPath w (tagPagePath settings (tagOfInterest tag)) = None"
    and "fetch w settings (tagOfInterest tag) = Inr tagsInfo"
    and "generate settings tagsInfo (tagOfInterest tag) = Inl e"
  shows "createTagPage fetch generate folderFirst settings tag w
           = (Inl e, logEvent (GenerateTagPageContent (tagOfInterest tag))
                       (logEvent (FetchTagData (tagOfInterest tag)) w))"
  using assms by (simp add: createTagPage_unfold tagPagePath_def)

lemma writeTagPage_trace:
  "\<exists>evs. trace (snd (writeTagPage folderFirst settings p s w)) = trace w @ evs"
  by (auto simp: writeTagPage_def Let_def create_def createFolder_def openFile_def logEvent_def)

lemma createTagPage_scans:
  assumes "getAbstractFileByPath w (tagPagePath settings (tagOfInterest tag)) = None"
  shows "\<exists>evs. trace (snd (createTagPage fetch generate folderFirst settings tag w))
           = trace w @ FetchTagData (tagOfInterest tag) # evs"
proof (cases "fetch w settings (tagOfInterest tag)")
  case (Inl e)
  with assms show ?thesis by (simp add: createTagPage_unfold tagPagePath_def logEvent_def)
next
  case (Inr tagsInfo)
  show ?thesis
  proof (cases "generate settings tagsInfo (tagOfInterest tag)")
    case (Inl e)
    with Inr assms show ?thesis
      by (simp add: createTagPage_unfold tagPagePath_def logEvent_def)
  next
    case inr: (Inr s)
    let ?w2 = "logEvent (GenerateTagPageContent (tagOfInterest tag))
                 (logEvent (FetchTagData (tagOfInterest tag)) w)"
    from writeTagPage_trace obtain evs where
      "trace (snd (writeTagPage folderFirst settings
          (tagPagePath settings (tagOfInterest tag)) s ?w2)) = trace ?w2 @ evs"
      by blast
    with inr Inr assms show ?thesis
      by (simp add: createTagPage_unfold tagPagePath_def logEvent_def)
  qed
qed

text \<open>
  C5, as amended. \<^verbatim>\<open>createTagPage\<close> has no check of the tag. For a tag that is empty or
  made of \<^verbatim>\<open>#\<close> only, the tag of interest is again made of \<^verbatim>\<open>#\<close> only, and the command
  goes on with it: when a page already is at \<^verbatim>\<open>tagPageDir/<tag of interest>.md\<close> it is
  opened and the command succeeds; otherwise the command does not stop before the scan:
  its first call is the scan, with the tag of interest. If the scan rejects, the command
  fails with the scan's error and has made no other call; if the generator then
  rejects, the command fails with the generator's error and has called nothing but the
  scan and the generator.
\<close>

theorem createTagPage_invalid_tag:
  assumes "invalidTagInput tag"
  shows "invalidTagInput (tagOfInterest tag)
     \<and> (\<forall>tagPage. getAbstractFileByPath w (tagPagePath settings (tagOfInterest tag)) = Some tagPage
          \<longrightarrow> createTagPage fetch generate folderFirst settings tag w
                = (Inr (), openFile w tagPage))
     \<and> (getAbstractFileByPath w (tagPagePath settings (tagOfInterest tag)) = None
          \<longrightarrow> (\<exists>evs. trace (snd (createTagPage fetch generate folderFirst settings tag w))
                  = trace w @ FetchTagData (tagOfInterest tag) # evs))
     \<and> (\<forall>e. getAbstractFileByPath w (tagPagePath settings (tagOfInterest tag)) = None
              \<and> fetch w settings (tagOfInterest tag) = Inl e
          \<longrightarrow> createTagPage fetch generate folderFirst settings tag w
                = (Inl e, logEvent (FetchTagData (tagOfInterest tag)) w))
     \<and> (\<forall>tagsInfo e. getAbstractFileByPath w (tagPagePath settings (tagOfInterest tag)) = None
              \<and> fetch w settings (tagOfInterest tag) = Inr tagsInfo
              \<and> generate settings tagsInfo (tagOfInterest tag) = Inl e
          \<longrightarrow> createTagPage fetch generate folderFirst settings tag w
                = (Inl e, logEvent (GenerateTagPageContent (tagOfInterest tag))
                            (logEvent (FetchTagData (tagOfInterest tag)) w)))"
proof (intro conjI allI impI)
  show "invalidTagInput (tagOfInterest tag)"
    using assms by (rule invalidTagInput_tagOfInterest)
next
  fix tagPage
  assume "getAbstractFileByPath w (tagPagePath settings (tagOfInterest tag)) = Some tagPage"
  then show "createTagPage fetch generate folderFirst settings tag w
      = (Inr (), openFile w tagPage)"
    by (rule createTagPage_opens_existing)
next
  assume "getAbstractFileByPath w (tagPagePath settings (tagOfInterest tag)) = None"
  then show "\<exists>evs. trace (snd (createTagPage fetch generate folderFirst settings tag w))
      = trace w @ FetchTagData (tagOfInterest tag) # evs"
    by (rule createTagPage_scans)
next
  fix e
  assume "getAbstractFileByPath w (tagPagePath settings (tagOfInterest tag)) = None
      \<and> fetch w settings (tagOfInterest tag) = Inl e"
  then show "createTagPage fetch generate folderFirst settings tag w
      = (Inl e, logEvent (FetchTagData (tagOfInterest tag)) w)"
    by (simp add: createTagPage_fetch_rejects)
next
  fix tagsInfo e
  assume "getAbstractFileByPath w (tagPagePath settings (tagOfInterest tag)) = None
      \<and> fetch w settings (tagOfInterest tag) = Inr tagsInfo
      \<and> generate settings tagsInfo (tagOfInterest tag) = Inl e"
  then show "createTagPage fetch generate folderFirst settings tag w
      = (Inl e, logEvent (GenerateTagPageContent (tagOfInterest tag))
                  (logEvent (FetchTagData (tagOfInterest tag)) w))"
    by (simp add: createTagPage_generate_rejects)
qed

theorem createTagPage_invalid_tag_witness:
  "invalidTagInput ''#''
   \<and> createTagPage (\<lambda>w s t. Inl InvalidTagInput) (\<lambda>s i t. Inr ''# #'') True
       DEFAULT_SETTINGS ''#'' \<lparr>files = Map.empty, folders = {}, trace = []\<rparr>
     = (Inl InvalidTagInput, \<lparr>files = Map.empty, folders = {}, trace = [FetchTagData ''#'']\<rparr>)
   \<and> createTagPage (\<lambda>w s t. Inr []) (\<lambda>s i t. Inl (Rejected ''render'')) True
       DEFAULT_SETTINGS '''' \<lparr>files = Map.empty, folders = {}, trace = []\<rparr>
     = (Inl (Rejected ''render''),
        \<lparr>files = Map.empty, folders = {},
         trace = [FetchTagData ''#'', GenerateTagPageContent ''#'']\<rparr>)"
proof -
  have inv: "invalidTagInput ''#''" "invalidTagInput ''''" by (simp_all add: invalidTagInput_def)
  have t: "tagOfInterest ''#'' = ''#''" "tagOfInterest '''' = ''#''"
    by (simp_all add: tagOfInterest_def startsWith_def)
  have p: "tagPagePath DEFAULT_SETTINGS ''#'' = ''Tags/#.md''"
    by (simp add: tagPagePath_def DEFAULT_SETTINGS_def)
  have none: "getAbstractFileByPath \<lparr>files = Map.empty, folders = {}, trace = []\<rparr> ''Tags/#.md'' = None"
    by (simp add: getAbstractFileByPath_def)
  show ?thesis
    using inv(1) none
      createTagPage_invalid_tag [OF inv(1), of "\<lparr>files = Map.empty, folders = {}, trace = []\<rparr>"
        DEFAULT_SETTINGS "\<lambda>w s t. Inl InvalidTagInput" "\<lambda>s i t. Inr ''# #''" True]
      createTagPage_invalid_tag [OF inv(2), of "\<lparr>files = Map.empty, folders = {}, trace = []\<rparr>"
        DEFAULT_SETTINGS "\<lambda>w s t. Inr []" "\<lambda>s i t. Inl (Rejected ''render'')" True]
    by (simp add: t p logEvent_def)
qed

text \<open>
  C5, as stated, fails: for the tag \<^verbatim>\<open>#\<close> (what the dialog's input holds when it opens)
  and a vault that has \<^verbatim>\<open>Tags/#.md\<close>, the command opens that page and succeeds; no
  \<^verbatim>\<open>InvalidTagInput\<close> is raised.
\<close>

theorem createTagPage_invalid_tag_counterexample:
  "invalidTagInput ''#''
   \<and> createTagPage (\<lambda>w s t. Inr []) (\<lambda>s i t. Inr ''# #'') True DEFAULT_SETTINGS ''#''
       \<lparr>files = [''Tags/#.md'' \<mapsto> ''old page''], folders = {''Tags''}, trace = []\<rparr>
     = (Inr (),
        \<lparr>files = [''Tags/#.md'' \<mapsto> ''old page''], folders = {''Tags''},
         trace = [OpenFile ''Tags/#.md'']\<rparr>)"
  by (simp add: invalidTagInput_def createTagPage_def tagOfInterest_def startsWith_def
      tagPagePath_def DEFAULT_SETTINGS_def getAbstractFileByPath_def openFile_def logEvent_def)

subsection \<open>The guard of refreshTagPageContent\<close>

text \<open>
  C4. The guard of \<^verbatim>\<open>refreshTagPageContent\<close> is \<^verbatim>\<open>path.includes(tagPageDir)\<close>, which
  holds for a path that has \<^verbatim>\<open>tagPageDir\<close> anywhere in it. With \<^verbatim>\<open>tagPageDir = "Tags"\<close>
  the note \<^verbatim>\<open>Notes/MyTags.md\<close> is not under \<^verbatim>\<open>Tags\<close> (its path starts neither with
  \<^verbatim>\<open>Tags\<close> nor with \<^verbatim>\<open>Tags/\<close>), yet the guard lets it through and refresh replaces the
  text of its editor with the generated page.
\<close>

theorem refreshTagPageContent_overwrites_outside_tagPageDir:
  "\<not> startsWith ''Notes/MyTags.md'' (tagPageDir DEFAULT_SETTINGS)
   \<and> \<not> startsWith ''Notes/MyTags.md'' (tagPageDir DEFAULT_SETTINGS @ ''/'')
   \<and> includes_str ''Notes/MyTags.md'' (tagPageDir DEFAULT_SETTINGS)
   \<and> refreshTagPageContent (\<lambda>w s t. Inr []) (\<lambda>s i t. Inr ''# #work'') DEFAULT_SETTINGS
       (Some \<lparr>editor = Some ''my own notes'', viewFile = Some ''Notes/MyTags.md''\<rparr>) ''#work''
       \<lparr>files = Map.empty, folders = {}, trace = []\<rparr>
     = (Inr (), Some \<lparr>editor = Some ''# #work'', viewFile = Some ''Notes/MyTags.md''\<rparr>,
        \<lparr>files = Map.empty, folders = {},
         trace = [FetchTagData ''#work'', GenerateTagPageContent ''#work'',
                  SetValue ''# #work'']\<rparr>)"
  by (simp add: refreshTagPageContent_def logEvent_def DEFAULT_SETTINGS_def startsWith_def)

section \<open>Properties of the Indexer and the Generator as specified\<close>

subsection \<open>Occurrences and lines\<close>







subsection \<open>The keyed matches\<close>

lemma keyed_Some:
  "keyedMatch config tag d = Some e \<Longrightarrow> fst e = path d \<and> fileLink (snd e) = fileLinkOf (path d)"
  by (auto simp: keyedMatch_def indexDoc_def Let_def split: option.splits if_splits)

lemma keyed_fst: "keyedMatch config tag d = Some (p, i) \<Longrightarrow> p = path d"
  by (drule keyed_Some) simp

lemma map_fst_map_filter_keyed:
  "map fst (List.map_filter (keyedMatch config tag) ds)
     = map path (filter (\<lambda>d. keyedMatch config tag d \<noteq> None) ds)"
  by (induction ds) (auto simp: List.map_filter_def dest: keyed_fst)

lemma distinct_keys:
  assumes "distinct (map path docs)"
  shows "distinct (map fst (List.map_filter (keyedMatch config tag) (filter P docs)))"
  unfolding map_fst_map_filter_keyed
  using assms by (simp add: distinct_map_filter)

lemma mset_map_filter:
  "mset xs = mset ys \<Longrightarrow> mset (List.map_filter f (filter P xs)) = mset (List.map_filter f (filter P ys))"
  by (simp add: List.map_filter_def)

lemma indexKeyed_perm:
  assumes "distinct (map path docs)" and "mset docs' = mset docs"
  shows "indexKeyed docs' tag config = indexKeyed docs tag config"
  unfolding indexKeyed_def
proof (rule sort_key_eq_sort_key)
  show "mset (List.map_filter (keyedMatch config tag) (filter (\<lambda>d. \<not> insideTagPageDir config d) docs'))
      = mset (List.map_filter (keyedMatch config tag) (filter (\<lambda>d. \<not> insideTagPageDir config d) docs))"
    using assms(2) by (rule mset_map_filter)
  have "mset (map path docs') = mset (map path docs)"
    using assms(2) by simp
  then have "distinct (map path docs')"
    using assms(1) mset_eq_imp_distinct_iff by blast
  then have "distinct (map fst (List.map_filter (keyedMatch config tag)
      (filter (\<lambda>d. \<not> insideTagPageDir config d) docs')))"
    by (rule distinct_keys)
  then show "inj_on fst (set (List.map_filter (keyedMatch config tag)
      (filter (\<lambda>d. \<not> insideTagPageDir config d) docs')))"
    by (simp add: distinct_map)
qed

lemma indexKeyed_sorted: "sorted (map fst (indexKeyed docs tag config))"
  by (simp add: indexKeyed_def)

lemma indexKeyed_strict:
  assumes "distinct (map path docs)"
  shows "sorted_wrt (<) (map fst (indexKeyed docs tag config))"
proof -
  have "distinct (map fst (indexKeyed docs tag config))"
    unfolding indexKeyed_def using distinct_keys [OF assms, of config tag]
    by (simp add: distinct_map)
  with indexKeyed_sorted show ?thesis
    by (simp add: strict_sorted_iff)
qed

lemma indexKeyed_members:
  assumes "e \<in> set (indexKeyed docs tag config)"
  shows "\<exists>d \<in> set docs. \<not> insideTagPageDir config d \<and> fst e = path d
            \<and> indexDoc config tag d = Some (snd e)"
proof -
  from assms obtain d where "d \<in> set docs" "\<not> insideTagPageDir config d" "keyedMatch config tag d = Some e"
    unfolding indexKeyed_def by (auto simp: List.map_filter_def)
  then show ?thesis by (auto simp: keyedMatch_def)
qed

lemma indexDoc_link: "indexDoc config tag d = Some i \<Longrightarrow> fileLink i = fileLinkOf (path d)"
  by (auto simp: indexDoc_def Let_def split: option.splits if_splits)

lemma indexKeyed_links:
  "\<forall>e \<in> set (indexKeyed docs tag config). fileLink (snd e) = fileLinkOf (fst e)"
proof
  fix e assume "e \<in> set (indexKeyed docs tag config)"
  then obtain d where "fst e = path d" "indexDoc config tag d = Some (snd e)"
    using indexKeyed_members by blast
  then show "fileLink (snd e) = fileLinkOf (fst e)"
    by (simp add: indexDoc_link)
qed

lemma filter_path_single:
  assumes "distinct (map path docs)" "d \<in> set docs"
  shows "filter (\<lambda>x. path x = path d) docs = [d]"
  using assms
proof (induction docs)
  case Nil
  then show ?case by simp
next
  case (Cons x xs)
  show ?case
  proof (cases "x = d")
    case True
    with Cons.prems have "path d \<notin> path ` set xs" by simp
    then have "\<forall>y \<in> set xs. path y \<noteq> path d" by (metis imageI)
    then have "filter (\<lambda>x. path x = path d) xs = []" by (simp add: filter_empty_conv)
    with True show ?thesis by simp
  next
    case False
    with Cons.prems have "d \<in> set xs" "path x \<noteq> path d" by auto
    with Cons show ?thesis by simp
  qed
qed

lemma filter_keyed:
  "filter (\<lambda>e. fst e = p) (List.map_filter (keyedMatch config tag) ds)
     = List.map_filter (keyedMatch config tag) (filter (\<lambda>x. path x = p) ds)"
  by (induction ds) (auto simp: List.map_filter_def dest: keyed_fst)

lemma fileLinkOf_inj: "fileLinkOf p = fileLinkOf q \<longleftrightarrow> p = q"
  by (simp add: fileLinkOf_def)

lemma indexKeyed_of_doc:
  assumes "distinct (map path docs)" "d \<in> set docs" "\<not> insideTagPageDir config d"
  shows "filter (\<lambda>i. fileLink i = fileLinkOf (path d)) (map snd (indexKeyed docs tag config))
       = (case indexDoc config tag d of None \<Rightarrow> [] | Some i \<Rightarrow> [i])"
proof -
  let ?P = "\<lambda>d. \<not> insideTagPageDir config d"
  have "filter (\<lambda>i. fileLink i = fileLinkOf (path d)) (map snd (indexKeyed docs tag config))
      = map snd (filter (\<lambda>e. fileLink (snd e) = fileLinkOf (path d)) (indexKeyed docs tag config))"
    by (simp add: filter_map comp_def)
  also have "filter (\<lambda>e. fileLink (snd e) = fileLinkOf (path d)) (indexKeyed docs tag config)
      = filter (\<lambda>e. fst e = path d) (indexKeyed docs tag config)"
    using indexKeyed_links [of docs tag config]
    by (intro filter_cong) (auto simp: fileLinkOf_inj)
  also have "\<dots> = sort_key fst (filter (\<lambda>e. fst e = path d)
        (List.map_filter (keyedMatch config tag) (filter ?P docs)))"
    unfolding indexKeyed_def by (simp add: filter_sort)
  also have "filter (\<lambda>e. fst e = path d) (List.map_filter (keyedMatch config tag) (filter ?P docs))
      = List.map_filter (keyedMatch config tag) (filter ?P (filter (\<lambda>x. path x = path d) docs))"
    unfolding filter_keyed by (simp add: conj_commute)
  also have "\<dots> = List.map_filter (keyedMatch config tag) [d]"
    using assms by (simp add: filter_path_single)
  finally show ?thesis
    by (auto simp: List.map_filter_def keyedMatch_def split: option.splits)
qed


lemmas example_defs = index_def indexKeyed_def keyedMatch_def invalidTagInput_def
  normalizeTag_def startsWith_def DEFAULT_SETTINGS_def insideTagPageDir_def
  List.map_filter_def indexDoc_def inlineMatches_def newline_def frontmatterMatch_def
  tokenEnds_def isTagChar_def tagChars_def fileLinkOf_def frontmatterMarker_def
  exampleA_def exampleB_def exampleC_def

lemma index_normalizes:
  "\<not> startsWith t ''#'' \<Longrightarrow> index docs t config = index docs (''#'' @ t) config"
  by (cases t) (auto simp: index_def normalizeTag_def invalidTagInput_def startsWith_def)

subsection \<open>The inline rule counts whole tokens only\<close>




subsection \<open>The result does not depend on the order of the documents\<close>

text \<open>
  C2. For documents with pairwise different paths, \<^verbatim>\<open>index\<close> gives the same result for
  every rearrangement of the documents; for a valid tag the result is the list of
  records of the keyed matches, whose paths are in strictly ascending order, each
  record being the match record of the document at that path.
\<close>

theorem index_order_independent:
  assumes "distinct (map path docs)" and "mset docs' = mset docs"
  shows "index docs' tag config = index docs tag config
       \<and> (\<not> invalidTagInput tag \<longrightarrow>
            index docs tag config = Inr (map snd (indexKeyed docs (normalizeTag tag) config)))
       \<and> sorted_wrt (<) (map fst (indexKeyed docs (normalizeTag tag) config))
       \<and> (\<forall>e \<in> set (indexKeyed docs (normalizeTag tag) config).
            \<exists>d \<in> set docs. fst e = path d
               \<and> indexDoc config (normalizeTag tag) d = Some (snd e))"
proof -
  have "index docs' tag config = index docs tag config"
    using indexKeyed_perm [OF assms] by (simp add: index_def)
  moreover have "\<not> invalidTagInput tag \<longrightarrow>
            index docs tag config = Inr (map snd (indexKeyed docs (normalizeTag tag) config))"
    by (simp add: index_def)
  moreover note indexKeyed_strict [OF assms(1)]
  moreover have "\<forall>e \<in> set (indexKeyed docs (normalizeTag tag) config).
            \<exists>d \<in> set docs. fst e = path d
               \<and> indexDoc config (normalizeTag tag) d = Some (snd e)"
    using indexKeyed_members by blast
  ultimately show ?thesis by blast
qed

theorem index_order_independent_witness:
  "distinct (map path [exampleA, exampleB, exampleC])
   \<and> mset [exampleC, exampleB, exampleA] = mset [exampleA, exampleB, exampleC]
   \<and> index [exampleC, exampleB, exampleA] ''proj'' DEFAULT_SETTINGS
       = index [exampleA, exampleB, exampleC] ''proj'' DEFAULT_SETTINGS
   \<and> index [exampleA, exampleB, exampleC] ''proj'' DEFAULT_SETTINGS
       = Inr [\<lparr>fileLink = ''[[A.md]]'', tagMatches = [''See #proj today'']\<rparr>,
              \<lparr>fileLink = ''[[C.md]]'', tagMatches = [''matched via frontmatter query'']\<rparr>]"
proof -
  have h1: "distinct (map path [exampleA, exampleB, exampleC])"
    by (simp add: exampleA_def exampleB_def exampleC_def)
  have h2: "mset [exampleC, exampleB, exampleA] = mset [exampleA, exampleB, exampleC]"
    by (simp add: add_mset_commute)
  have v: "index [exampleA, exampleB, exampleC] ''proj'' DEFAULT_SETTINGS
       = Inr [\<lparr>fileLink = ''[[A.md]]'', tagMatches = [''See #proj today'']\<rparr>,
              \<lparr>fileLink = ''[[C.md]]'', tagMatches = [''matched via frontmatter query'']\<rparr>]"
    by (simp add: example_defs)
  from index_order_independent [OF h1 h2, of "''proj''" DEFAULT_SETTINGS] h1 h2 v
  show ?thesis by blast
qed

subsection \<open>The frontmatter rule\<close>

text \<open>
  C6, as amended. For a valid tag and documents with pairwise different paths, a
  readable document outside the tag page directory whose frontmatter matches the query
  property has exactly one record in the result of \<^verbatim>\<open>index\<close>: its evidence is the
  inline lines followed by the frontmatter marker, hence the marker alone when the
  inline rule finds no line.
\<close>

theorem frontmatter_match_once:
  assumes "\<not> invalidTagInput tag"
    and "distinct (map path docs)" and "d \<in> set docs"
    and "content d = Some doc"
    and "\<not> insideTagPageDir config d"
    and "frontmatterMatch config (normalizeTag tag) d"
  shows "\<exists>infos. index docs tag config = Inr infos
       \<and> filter (\<lambda>i. fileLink i = fileLinkOf (path d)) infos
           = [\<lparr>fileLink = fileLinkOf (path d),
               tagMatches = inlineMatches (normalizeTag tag) doc @ [frontmatterMarker]\<rparr>]
       \<and> (inlineMatches (normalizeTag tag) doc = [] \<longrightarrow>
            filter (\<lambda>i. fileLink i = fileLinkOf (path d)) infos
              = [\<lparr>fileLink = fileLinkOf (path d), tagMatches = [frontmatterMarker]\<rparr>])"
proof -
  have "indexDoc config (normalizeTag tag) d
      = Some \<lparr>fileLink = fileLinkOf (path d),
               tagMatches = inlineMatches (normalizeTag tag) doc @ [frontmatterMarker]\<rparr>"
    using assms(4,6) by (simp add: indexDoc_def)
  with indexKeyed_of_doc [OF assms(2,3,5), of "normalizeTag tag"] assms(1)
  show ?thesis by (simp add: index_def)
qed

theorem frontmatter_match_once_witness:
  "filter (\<lambda>i. fileLink i = fileLinkOf ''C.md'')
     (projr (index [exampleC, exampleB, exampleA] ''proj'' DEFAULT_SETTINGS))
   = [\<lparr>fileLink = ''[[C.md]]'', tagMatches = [''matched via frontmatter query'']\<rparr>]
   \<and> filter (\<lambda>i. fileLink i = fileLinkOf ''D.md'')
     (projr (index [\<lparr>path = ''D.md'', content = Some ''plan for #proj'',
                     frontmatter = [(''tage-page-query'', ''#proj'')]\<rparr>, exampleA]
               ''proj'' DEFAULT_SETTINGS))
   = [\<lparr>fileLink = ''[[D.md]]'',
       tagMatches = [''plan for #proj'', ''matched via frontmatter query'']\<rparr>]"
proof -
  let ?D = "\<lparr>path = ''D.md'', content = Some ''plan for #proj'',
             frontmatter = [(''tage-page-query'', ''#proj'')]\<rparr>"
  have h1: "\<not> invalidTagInput ''proj''" by (simp add: invalidTagInput_def)
  have h2: "distinct (map path [exampleC, exampleB, exampleA])"
    by (simp add: exampleA_def exampleB_def exampleC_def)
  have h3: "exampleC \<in> set [exampleC, exampleB, exampleA]" by simp
  have h4: "content exampleC = Some ''unrelated''" by (simp add: exampleC_def)
  have h5: "\<not> insideTagPageDir DEFAULT_SETTINGS exampleC"
    by (simp add: example_defs)
  have h6: "frontmatterMatch DEFAULT_SETTINGS (normalizeTag ''proj'') exampleC"
    by (simp add: example_defs)
  have i: "inlineMatches (normalizeTag ''proj'') ''unrelated'' = []"
    by (simp add: example_defs)
  have p: "path exampleC = ''C.md''" by (simp add: exampleC_def)
  have c: "filter (\<lambda>i. fileLink i = fileLinkOf ''C.md'')
     (projr (index [exampleC, exampleB, exampleA] ''proj'' DEFAULT_SETTINGS))
   = [\<lparr>fileLink = ''[[C.md]]'', tagMatches = [''matched via frontmatter query'']\<rparr>]"
    using frontmatter_match_once [OF h1 h2 h3 h4 h5 h6]
    by (auto simp: i p fileLinkOf_def frontmatterMarker_def)
  have g2: "distinct (map path [?D, exampleA])" by (simp add: exampleA_def)
  have g3: "?D \<in> set [?D, exampleA]" by simp
  have g4: "content ?D = Some ''plan for #proj''" by simp
  have g5: "\<not> insideTagPageDir DEFAULT_SETTINGS ?D" by (simp add: example_defs)
  have g6: "frontmatterMatch DEFAULT_SETTINGS (normalizeTag ''proj'') ?D"
    by (simp add: example_defs)
  have j: "inlineMatches (normalizeTag ''proj'') ''plan for #proj'' = [''plan for #proj'']"
    by (simp add: example_defs)
  have d: "filter (\<lambda>i. fileLink i = fileLinkOf ''D.md'')
     (projr (index [?D, exampleA] ''proj'' DEFAULT_SETTINGS))
   = [\<lparr>fileLink = ''[[D.md]]'',
       tagMatches = [''plan for #proj'', ''matched via frontmatter query'']\<rparr>]"
    using frontmatter_match_once [OF h1 g2 g3 g4 g5 g6]
    by (auto simp: j fileLinkOf_def frontmatterMarker_def)
  from c d show ?thesis by blast
qed

text \<open>
  C6, as stated, fails: a page inside the tag page directory is not scanned, so its
  matching frontmatter gives no record.
\<close>

theorem frontmatter_match_tagPageDir_counterexample:
  "inlineMatches ''#proj'' ''overview'' = []
   \<and> frontmatterMatch DEFAULT_SETTINGS (normalizeTag ''proj'')
        \<lparr>path = ''Tags/#proj.md'', content = Some ''overview'',
         frontmatter = [(''tage-page-query'', ''#proj'')]\<rparr>
   \<and> index [\<lparr>path = ''Tags/#proj.md'', content = Some ''overview'',
              frontmatter = [(''tage-page-query'', ''#proj'')]\<rparr>] ''proj'' DEFAULT_SETTINGS
     = Inr []"
  by (simp add: example_defs)

subsection \<open>Rendering no match\<close>

lemma unlines_Cons: "unlines (l # ls) = l @ newline # unlines ls"
  by (simp add: unlines_def)

lemma unlines_Nil: "unlines [] = []"
  by (simp add: unlines_def)

text \<open>
  C7. For an empty list of match records, \<^verbatim>\<open>render\<close> returns the heading line of the
  normalised tag, an empty line and the no-matches notice, which is not empty: the
  output is not the heading alone, with or without the empty line after it.
\<close>

theorem render_empty:
  "render esc config [] tag = unlines [heading tag, [], noMatchesNotice]
   \<and> heading tag = ''# '' @ normalizeTag tag
   \<and> noMatchesNotice \<noteq> []
   \<and> render esc config [] tag \<noteq> unlines [heading tag]
   \<and> render esc config [] tag \<noteq> unlines [heading tag, []]"
  by (simp add: render_def heading_def noMatchesNotice_def unlines_Cons unlines_Nil)

end
